theory Spec2Isabelle
  imports Complex_Main
begin

section \<open>Strings as the matcher sees them\<close>

text \<open>
  Tokens are Python \<open>str\<close> values. They are modelled as \<open>string\<close>, a \<open>char\<close> being read
  as a code point below 256. On that range \<open>str.lower\<close> moves \<open>A\<close>..\<open>Z\<close> and the
  upper-case Latin-1 letters (192..222 without the multiplication sign 215) up by 32, and
  \<open>str.strip\<close> removes the white space code points 9..13, 28..32, 133 and 160 from both
  ends.
\<close>

definition py_lower_char :: "char \<Rightarrow> char" where
  "py_lower_char c =
     (let n = (of_char c :: nat)
      in if (65 \<le> n \<and> n \<le> 90) \<or> (192 \<le> n \<and> n \<le> 222 \<and> n \<noteq> 215)
         then char_of (n + 32) else c)"

definition py_isspace :: "char \<Rightarrow> bool" where
  "py_isspace c =
     (let n = (of_char c :: nat)
      in (9 \<le> n \<and> n \<le> 13) \<or> (28 \<le> n \<and> n \<le> 32) \<or> n = 133 \<or> n = 160)"

definition lower :: "string \<Rightarrow> string" where
  "lower s = map py_lower_char s"

definition strip :: "string \<Rightarrow> string" where
  "strip s = rev (dropWhile py_isspace (rev (dropWhile py_isspace s)))"

text \<open>Truth value of an optional string: \<open>None\<close> and the empty string are false.\<close>

definition truthy :: "string option \<Rightarrow> bool" where
  "truthy c = (case c of None \<Rightarrow> False | Some s \<Rightarrow> s \<noteq> [])"

text \<open>What an f-string prints for an optional string.\<close>

definition py_str :: "string option \<Rightarrow> string" where
  "py_str c = (case c of None \<Rightarrow> ''None'' | Some s \<Rightarrow> s)"

section \<open>CommandMatcher (main9.py)\<close>

subsection \<open>Normalisation\<close>

definition valid_commands :: "string list" where
  "valid_commands = [''one'', ''two'', ''three'', ''four'', ''five'', ''home'']"

definition mappings :: "string \<rightharpoonup> string" where
  "mappings = map_of
     [(''1'', ''one''), (''i'', ''one''), (''l'', ''one''),
      (''2'', ''two''), (''to'', ''two''), (''too'', ''two''),
      (''3'', ''three''), (''tree'', ''three''),
      (''4'', ''four''), (''for'', ''four''),
      (''5'', ''five''), (''s'', ''five''),
      (''0'', ''home''), (''zero'', ''home''), (''o'', ''home'')]"

text \<open>
  \<open>_clean_command\<close>: an empty token gives \<open>None\<close>; otherwise the token is lower-cased and
  stripped, and the correction table is consulted with the cleaned token as default.
  The method reads no attribute of the matcher and assigns none, so it takes no state.
\<close>

definition clean_command :: "string \<Rightarrow> string option" where
  "clean_command command =
     (if command = [] then None
      else let cleaned = strip (lower command)
           in Some (case mappings cleaned of Some m \<Rightarrow> m | None \<Rightarrow> cleaned))"

text \<open>
  The guard of \<open>add_command\<close> that rejects a cleaned token:
  \<open>not cleaned or cleaned not in self.valid_commands\<close>.
\<close>

definition invalid :: "string option \<Rightarrow> bool" where
  "invalid cleaned =
     (case cleaned of None \<Rightarrow> True | Some c \<Rightarrow> c = [] \<or> c \<notin> set valid_commands)"

subsection \<open>State, collaborator and observable events\<close>

text \<open>
  \<open>self.stats\<close> is a dictionary with four fixed keys, each an unbounded integer.
  The matcher holds, per source, the last cleaned command and the clock reading taken
  when it was stored; \<open>0\<close> is what the code stores for "no time". Clock readings
  (\<open>time.time()\<close>) are floats; a float is modelled by the real it denotes, and so is
  the time-out.
\<close>

record stats =
  voice_commands :: int
  ocr_commands :: int
  matched_commands :: int
  executed_commands :: int

record matcher =
  voice_command :: "string option"
  voice_time :: real
  ocr_command :: "string option"
  ocr_time :: real
  timeout :: real
  stats :: stats

definition init :: "real \<Rightarrow> matcher" where
  "init t =
     \<lparr>voice_command = None, voice_time = 0, ocr_command = None, ocr_time = 0, timeout = t,
      stats = \<lparr>voice_commands = 0, ocr_commands = 0, matched_commands = 0,
               executed_commands = 0\<rparr>\<rparr>"

text \<open>
  An exception of class \<open>Exception\<close> is an \<open>exn\<close>. What a call may raise is either such
  an exception or one outside that class (\<open>SystemExit\<close>, \<open>KeyboardInterrupt\<close>), named
  by its class; \<open>except Exception\<close> catches the first kind only.
\<close>

datatype exn = Exception string

datatype thrown = Class_Exception exn | Outside_Exception string

text \<open>
  The arm controller is imported from a module outside this repository. A call of its
  \<open>process_voice_command\<close> either returns (the value is ignored by the caller) or
  raises; \<open>ARM_AVAILABLE\<close> records whether the import succeeded. The platform also
  fixes the float arithmetic: \<open>rnd\<close> takes the exact result of an operation to the
  float that the operation returns. Nothing is fixed about \<open>rnd\<close> here; what a fact
  needs of it is among its hypotheses. \<open>abs\<close> and the comparisons are exact.
\<close>

record env =
  ARM_AVAILABLE :: bool
  process_voice_command :: "string \<Rightarrow> thrown + unit"
  rnd :: "real \<Rightarrow> real"

text \<open>The difference of two floats, as the code computes it.\<close>

definition fsub :: "env \<Rightarrow> real \<Rightarrow> real \<Rightarrow> real" where
  "fsub e a b = rnd e (a - b)"

text \<open>
  What a call does besides changing the matcher: taking and releasing \<open>self.lock\<close>,
  the lines it prints, the call of the arm controller and the simulated delay.
\<close>

datatype event =
    LockAcquire
  | LockRelease
  | Print_invalid string string
  | Print_voice string
  | Print_ocr string
  | Print_match string real
  | Print_executing string
  | Call_arm string
  | Print_simulation string
  | Sleep real
  | Print_exec_error exn
  | Print_executed string
  | Print_exec_failed string
  | Print_clean_voice "string option"
  | Print_clean_ocr "string option"

subsection \<open>Dispatch, match check, submission and sweep\<close>

text \<open>
  \<open>_execute_command\<close>: the body runs inside \<open>try\<close>. An exception of class
  \<open>Exception\<close> raised by the arm controller is caught, printed and turned into
  \<open>False\<close>; any other exception leaves the method (\<open>Inl\<close>).
\<close>

definition execute_command :: "env \<Rightarrow> string \<Rightarrow> (thrown + bool) \<times> event list" where
  "execute_command e command =
     (if ARM_AVAILABLE e then
        (case process_voice_command e command of
           Inr u \<Rightarrow> (Inr True, [Print_executing command, Call_arm command])
         | Inl (Class_Exception x) \<Rightarrow>
             (Inr False, [Print_executing command, Call_arm command, Print_exec_error x])
         | Inl (Outside_Exception n) \<Rightarrow>
             (Inl (Outside_Exception n), [Print_executing command, Call_arm command]))
      else (Inr True, [Print_simulation command, Sleep 2]))"

definition count_matched :: "matcher \<Rightarrow> matcher" where
  "count_matched s = s\<lparr>stats := (stats s)\<lparr>matched_commands := matched_commands (stats s) + 1\<rparr>\<rparr>"

definition count_executed :: "matcher \<Rightarrow> matcher" where
  "count_executed s =
     s\<lparr>stats := (stats s)\<lparr>executed_commands := executed_commands (stats s) + 1\<rparr>\<rparr>"

definition reset :: "matcher \<Rightarrow> matcher" where
  "reset s = s\<lparr>voice_command := None, ocr_command := None, voice_time := 0, ocr_time := 0\<rparr>"

text \<open>
  \<open>_check_match\<close> returns the matcher, the trace and the exception that leaves the
  method, if any. The command is read with \<open>the\<close> only after the truth test has shown
  the slot to hold a string. The match is counted before the dispatch; when the dispatch
  raises past \<open>_execute_command\<close>, the lines after the call do not run, so neither
  the outcome is printed nor the slots are reset.
\<close>

definition check_match :: "env \<Rightarrow> matcher \<Rightarrow> matcher \<times> event list \<times> thrown option" where
  "check_match e s =
     (if \<not> truthy (voice_command s) \<or> \<not> truthy (ocr_command s) then (s, [], None)
      else
        let time_diff = \<bar>fsub e (voice_time s) (ocr_time s)\<bar>
        in if voice_command s = ocr_command s \<and> time_diff \<le> timeout s then
             let cmd = the (voice_command s);
                 s1 = count_matched s;
                 (outcome, evs) = execute_command e cmd
             in case outcome of
                  Inl x \<Rightarrow> (s1, [Print_match cmd time_diff] @ evs, Some x)
                | Inr success \<Rightarrow>
                    (reset (if success then count_executed s1 else s1),
                     [Print_match cmd time_diff] @ evs @
                     [if success then Print_executed cmd else Print_exec_failed cmd],
                     None)
           else (s, [], None))"

text \<open>
  \<open>add_command\<close>, with \<open>now\<close> the reading of \<open>time.time()\<close> taken after validation.
  The whole body runs under \<open>with self.lock\<close>, which releases the lock also when an
  exception passes through. A source other than \<open>VOICE\<close> and \<open>OCR\<close> stores nothing,
  and the match check still runs.
\<close>

definition store :: "matcher \<Rightarrow> string \<Rightarrow> string \<Rightarrow> real \<Rightarrow> matcher \<times> event list" where
  "store s cleaned source now =
     (if source = ''VOICE'' then
        (s\<lparr>voice_command := Some cleaned, voice_time := now,
           stats := (stats s)\<lparr>voice_commands := voice_commands (stats s) + 1\<rparr>\<rparr>,
         [Print_voice cleaned])
      else if source = ''OCR'' then
        (s\<lparr>ocr_command := Some cleaned, ocr_time := now,
           stats := (stats s)\<lparr>ocr_commands := ocr_commands (stats s) + 1\<rparr>\<rparr>,
         [Print_ocr cleaned])
      else (s, []))"

definition add_command ::
  "env \<Rightarrow> matcher \<Rightarrow> string \<Rightarrow> string \<Rightarrow> real \<Rightarrow> matcher \<times> event list \<times> thrown option" where
  "add_command e s command source now =
     (let cleaned = clean_command command
      in if invalid cleaned
         then (s, [LockAcquire, Print_invalid command source, LockRelease], None)
         else
           let (s1, evs1) = store s (the cleaned) source now;
               (s2, evs2, raised) = check_match e s1
           in (s2, [LockAcquire] @ evs1 @ evs2 @ [LockRelease], raised))"

text \<open>
  \<open>cleanup_old_commands\<close>, with \<open>now\<close> the reading of \<open>time.time()\<close>. The tests are
  on the stored times: a time of \<open>0\<close> is false. The age is a float difference.
\<close>

definition cleanup_voice :: "env \<Rightarrow> matcher \<Rightarrow> real \<Rightarrow> matcher \<times> event list" where
  "cleanup_voice e s now =
     (if voice_time s \<noteq> 0 \<and> fsub e now (voice_time s) > timeout s
      then (s\<lparr>voice_command := None, voice_time := 0\<rparr>, [Print_clean_voice (voice_command s)])
      else (s, []))"

definition cleanup_ocr :: "env \<Rightarrow> matcher \<Rightarrow> real \<Rightarrow> matcher \<times> event list" where
  "cleanup_ocr e s now =
     (if ocr_time s \<noteq> 0 \<and> fsub e now (ocr_time s) > timeout s
      then (s\<lparr>ocr_command := None, ocr_time := 0\<rparr>, [Print_clean_ocr (ocr_command s)])
      else (s, []))"

definition cleanup_old_commands :: "env \<Rightarrow> matcher \<Rightarrow> real \<Rightarrow> matcher \<times> event list" where
  "cleanup_old_commands e s now =
     (let (s1, evs1) = cleanup_voice e s now;
          (s2, evs2) = cleanup_ocr e s1 now
      in (s2, [LockAcquire] @ evs1 @ evs2 @ [LockRelease]))"

subsection \<open>Properties of states and traces\<close>

text \<open>A slot holds a command exactly when its stored time is not the \<open>0\<close> of an empty slot.\<close>

definition slot_inv :: "matcher \<Rightarrow> bool" where
  "slot_inv s =
     ((voice_command s \<noteq> None) = (voice_time s \<noteq> 0) \<and>
      (ocr_command s \<noteq> None) = (ocr_time s \<noteq> 0))"

text \<open>
  The states of a running matcher: it is created with some time-out, and then commands
  are added and old commands swept, in any order and with any arm controller. The clock
  is the epoch clock, whose readings are not \<open>0\<close>.
\<close>

inductive reachable :: "matcher \<Rightarrow> bool" where
  reach_init: "reachable (init t)"
| reach_add:
    "reachable s \<Longrightarrow> now \<noteq> 0 \<Longrightarrow> reachable (fst (add_command e s command source now))"
| reach_sweep: "reachable s \<Longrightarrow> reachable (fst (cleanup_old_commands e s now))"


text \<open>
  The effects that are the dispatch itself: the call of the arm controller and, without
  an arm, the simulated execution time. A printed match line marks a fired match.
\<close>

fun is_dispatch :: "event \<Rightarrow> bool" where
  "is_dispatch (Call_arm c) = True"
| "is_dispatch (Sleep d) = True"
| "is_dispatch ev = False"

fun is_match :: "event \<Rightarrow> bool" where
  "is_match (Print_match c d) = True"
| "is_match ev = False"

text \<open>
  Reading a trace from the left with the lock state \<open>held\<close>: \<open>dispatch_unlocked\<close> says
  that no dispatch effect happens while the lock is held, \<open>dispatch_locked\<close> that every
  dispatch effect happens while it is held.
\<close>

fun dispatch_unlocked :: "bool \<Rightarrow> event list \<Rightarrow> bool" where
  "dispatch_unlocked held [] = True"
| "dispatch_unlocked held (LockAcquire # evs) = dispatch_unlocked True evs"
| "dispatch_unlocked held (LockRelease # evs) = dispatch_unlocked False evs"
| "dispatch_unlocked held (ev # evs) =
     ((\<not> is_dispatch ev \<or> \<not> held) \<and> dispatch_unlocked held evs)"

fun dispatch_locked :: "bool \<Rightarrow> event list \<Rightarrow> bool" where
  "dispatch_locked held [] = True"
| "dispatch_locked held (LockAcquire # evs) = dispatch_locked True evs"
| "dispatch_locked held (LockRelease # evs) = dispatch_locked False evs"
| "dispatch_locked held (ev # evs) = ((\<not> is_dispatch ev \<or> held) \<and> dispatch_locked held evs)"

text \<open>
  Four arm controllers to run the matcher with: one that works, one that raises an
  \<open>Exception\<close>, one that raises \<open>SystemExit\<close>, and none. The readings used with them
  are small whole numbers, whose float differences are exact.
\<close>

definition arm_ok :: env where
  "arm_ok =
     \<lparr>ARM_AVAILABLE = True, process_voice_command = (\<lambda>c. Inr ()), rnd = (\<lambda>x. x)\<rparr>"

definition arm_failing :: env where
  "arm_failing =
     \<lparr>ARM_AVAILABLE = True,
      process_voice_command = (\<lambda>c. Inl (Class_Exception (Exception ''arm fault''))),
      rnd = (\<lambda>x. x)\<rparr>"

definition arm_exiting :: env where
  "arm_exiting =
     \<lparr>ARM_AVAILABLE = True,
      process_voice_command = (\<lambda>c. Inl (Outside_Exception ''SystemExit'')),
      rnd = (\<lambda>x. x)\<rparr>"

definition arm_absent :: env where
  "arm_absent =
     \<lparr>ARM_AVAILABLE = False, process_voice_command = (\<lambda>c. Inr ()), rnd = (\<lambda>x. x)\<rparr>"


definition pending_voice :: matcher where
  "pending_voice =
     \<lparr>voice_command = Some ''one'', voice_time = 1, ocr_command = None, ocr_time = 0,
      timeout = 10,
      stats = \<lparr>voice_commands = 1, ocr_commands = 0, matched_commands = 0,
               executed_commands = 0\<rparr>\<rparr>"


section \<open>The dashboard's own matcher (hrc\_gui\_dashboard3.py)\<close>

text \<open>
  The dashboard keeps its own pair of slots; times are \<open>datetime\<close> values (always true
  when present), modelled as seconds. Their differences are exact and whole numbers of
  microseconds, so comparing \<open>total_seconds()\<close> with \<open>10\<close> is the exact comparison.
  \<open>strftime\<close> stands for the formatting of a time as \<open>%H:%M:%S\<close>. The three history
  lists carry the suffix \<open>_gui\<close>.
\<close>

record dashboard =
  current_voice_command :: "string option"
  current_ocr_command :: "string option"
  current_voice_time :: "real option"
  current_ocr_time :: "real option"
  voice_commands_gui :: "string list"
  ocr_commands_gui :: "string list"
  matched_commands_gui :: "string list"

definition reset_gui :: "dashboard \<Rightarrow> dashboard" where
  "reset_gui d =
     d\<lparr>current_voice_command := None, current_ocr_command := None,
       current_voice_time := None, current_ocr_time := None\<rparr>"

text \<open>
  \<open>check_command_match\<close> returns the dashboard and the lines printed. The final
  \<open>print\<close> formats \<open>self.current_voice_command\<close> as it is after the reset.
\<close>

definition check_command_match ::
  "(real \<Rightarrow> string) \<Rightarrow> dashboard \<Rightarrow> real \<Rightarrow> dashboard \<times> string list" where
  "check_command_match strftime d match_time =
     (if truthy (current_voice_command d) \<and> truthy (current_ocr_command d) \<and>
         current_voice_time d \<noteq> None \<and> current_ocr_time d \<noteq> None then
        if current_voice_command d = current_ocr_command d then
          let time_diff = \<bar>the (current_voice_time d) - the (current_ocr_time d)\<bar>
          in if time_diff \<le> 10 then
               let match_entry =
                     strftime match_time @ '' - '' @ py_str (current_voice_command d) @
                     '' (Match!)'';
                   d1 = d\<lparr>matched_commands_gui := matched_commands_gui d @ [match_entry]\<rparr>;
                   d2 = reset_gui d1
               in (d2, [''[GUI] MATCH FOUND: '' @ py_str (current_voice_command d2)])
             else (d, [])
        else (d, [])
      else (d, []))"

definition process_gui_message ::
  "(real \<Rightarrow> string) \<Rightarrow> dashboard \<Rightarrow> string \<Rightarrow> string \<Rightarrow> real \<Rightarrow> real \<Rightarrow>
   dashboard \<times> string list" where
  "process_gui_message strftime d msg_type data current_time match_time =
     (let (d1, out1) =
            (if msg_type = ''voice_command'' then
               (d\<lparr>current_voice_command := Some data, current_voice_time := Some current_time,
                  voice_commands_gui :=
                    voice_commands_gui d @ [strftime current_time @ '' - '' @ data]\<rparr>,
                [''[GUI] Voice command: '' @ data])
             else if msg_type = ''ocr_command'' then
               (d\<lparr>current_ocr_command := Some data, current_ocr_time := Some current_time,
                  ocr_commands_gui :=
                    ocr_commands_gui d @ [strftime current_time @ '' - '' @ data]\<rparr>,
                [''[GUI] OCR command: '' @ data])
             else if msg_type = ''reset'' then (reset_gui d, [])
             else (d, []));
          (d2, out2) = check_command_match strftime d1 match_time
      in (d2, out1 @ out2))"

definition dashboard_init :: dashboard where
  "dashboard_init =
     \<lparr>current_voice_command = None, current_ocr_command = None, current_voice_time = None,
      current_ocr_time = None, voice_commands_gui = [], ocr_commands_gui = [],
      matched_commands_gui = []\<rparr>"

definition clock_noon :: "real \<Rightarrow> string" where
  "clock_noon t = ''12:00:00''"

text \<open>A dashboard holding the same command from both sources, two seconds apart.\<close>

definition dashboard_pair :: dashboard where
  "dashboard_pair =
     \<lparr>current_voice_command = Some ''two'', current_ocr_command = Some ''two'',
      current_voice_time = Some 1, current_ocr_time = Some 3,
      voice_commands_gui = [''12:00:00 - two''], ocr_commands_gui = [''12:00:00 - two''],
      matched_commands_gui = []\<rparr>"

section \<open>Process supervision (HRCMainSystem.monitor\_and\_restart)\<close>

text \<open>
  A process handle is the \<open>Popen\<close> object: its pid and the argument vector it was started
  with. The operating system is a parameter of one turn of the loop: \<open>poll\<close> gives
  \<open>None\<close> for a live process and its return code once it has exited, \<open>Popen\<close> starts
  a process or raises.
\<close>

record process =
  pid :: nat
  args :: "string list"

record opsys =
  executable :: string
  poll :: "process \<Rightarrow> int option"
  Popen :: "string list \<Rightarrow> exn + process"

record hrc_system =
  processes :: "string \<rightharpoonup> process"
  command_matcher :: matcher
  running :: bool

datatype sup_event =
    Print_died string
  | Print_restarted string nat
  | Print_restart_failed string exn

definition VOICE_SCRIPT :: string where "VOICE_SCRIPT = ''voice4.py''"
definition OCR_SCRIPT :: string where "OCR_SCRIPT = ''ocr4.py''"
definition GUI_SCRIPT :: string where "GUI_SCRIPT = ''hrc_gui_dashboard3.py''"

definition scripts :: "(string \<times> string) list" where
  "scripts = [(''VOICE'', VOICE_SCRIPT), (''OCR'', OCR_SCRIPT), (''GUI'', GUI_SCRIPT)]"

text \<open>The body of the \<open>for\<close> loop, for one entry of \<open>scripts\<close>.\<close>

definition check_process ::
  "opsys \<Rightarrow> hrc_system \<Rightarrow> string \<times> string \<Rightarrow> hrc_system \<times> sup_event list" where
  "check_process os sys entry =
     (let (name, script_path) = entry
      in case processes sys name of
           None \<Rightarrow> (sys, [])
         | Some proc \<Rightarrow>
             if poll os proc \<noteq> None then
               (case Popen os [executable os, script_path] of
                  Inr new_process \<Rightarrow>
                    (sys\<lparr>processes := (processes sys)(name \<mapsto> new_process)\<rparr>,
                     [Print_died name, Print_restarted name (pid new_process)])
                | Inl x \<Rightarrow> (sys, [Print_died name, Print_restart_failed name x]))
             else (sys, []))"

fun check_processes ::
  "opsys \<Rightarrow> hrc_system \<Rightarrow> (string \<times> string) list \<Rightarrow> hrc_system \<times> sup_event list" where
  "check_processes os sys [] = (sys, [])"
| "check_processes os sys (entry # rest) =
     (let (sys1, evs1) = check_process os sys entry;
          (sys2, evs2) = check_processes os sys1 rest
      in (sys2, evs1 @ evs2))"

text \<open>
  One turn of \<open>while self.running\<close>: after the three-second sleep every entry of
  \<open>scripts\<close> is checked in order.
\<close>

definition monitor_turn :: "opsys \<Rightarrow> hrc_system \<Rightarrow> hrc_system \<times> sup_event list" where
  "monitor_turn os sys = (if running sys then check_processes os sys scripts else (sys, []))"

text \<open>A system whose voice process has died, and two operating systems to restart it on.\<close>

definition sys_voice_dead :: hrc_system where
  "sys_voice_dead =
     \<lparr>processes = [''VOICE'' \<mapsto> \<lparr>pid = 100, args = [''python3'', ''voice4.py'']\<rparr>],
      command_matcher = init 15, running = True\<rparr>"

definition os_spawning :: opsys where
  "os_spawning =
     \<lparr>executable = ''python3'', poll = (\<lambda>p. if pid p = 100 then Some 1 else None),
      Popen = (\<lambda>a. Inr \<lparr>pid = 200, args = a\<rparr>)\<rparr>"

definition os_exhausted :: opsys where
  "os_exhausted =
     \<lparr>executable = ''python3'', poll = (\<lambda>p. if pid p = 100 then Some 1 else None),
      Popen = (\<lambda>a. Inl (Exception ''fork failed''))\<rparr>"

section \<open>Facts about normalisation\<close>

lemma mappings_valid: "mappings c = Some k \<Longrightarrow> k \<in> set valid_commands"
  unfolding mappings_def valid_commands_def by (auto split: if_splits)

lemma mappings_Nil: "mappings [] = None"
  by (simp add: mappings_def)

lemma valid_nonempty: "k \<in> set valid_commands \<Longrightarrow> k \<noteq> []"
  by (auto simp: valid_commands_def)

lemma invalid_Some: "k \<in> set valid_commands \<Longrightarrow> \<not> invalid (Some k)"
  by (simp add: invalid_def valid_nonempty)

lemma too_cleaned: "strip (lower '' Too '') = ''too''"
  by code_simp

lemma too_mapped: "mappings ''too'' = Some ''two''"
  by (simp add: mappings_def)

lemma banana_cleaned: "strip (lower ''Banana'') = ''banana''"
  by code_simp

lemma banana_unmapped: "mappings ''banana'' = None"
  by (simp add: mappings_def)

lemma banana_not_valid: "''banana'' \<notin> set valid_commands"
  by (simp add: valid_commands_def)

lemma banana_invalid: "invalid (clean_command ''Banana'')"
  by (simp add: invalid_def clean_command_def banana_cleaned banana_unmapped banana_not_valid)

lemma one_clean: "clean_command ''one'' = Some ''one''"
  by code_simp



lemma one_valid: "''one'' \<in> set valid_commands"
  by (simp add: valid_commands_def)


text \<open>
  C2. A token whose lower-cased, stripped form is a key of the correction table is
  normalised to the table's entry, which is a valid command, and is accepted. A token
  whose cleaned form is neither a key of the table nor a valid command is rejected by
  the guard of \<open>add_command\<close>. Normalisation is a function of the token alone.
\<close>

theorem clean_command_table:
  "(mappings (strip (lower tok)) = Some k \<longrightarrow>
      clean_command tok = Some k \<and> k \<in> set valid_commands \<and> \<not> invalid (clean_command tok)) \<and>
   (mappings (strip (lower tok)) = None \<and> strip (lower tok) \<notin> set valid_commands \<longrightarrow>
      invalid (clean_command tok))"
proof (intro conjI impI)
  assume m: "mappings (strip (lower tok)) = Some k"
  have "tok \<noteq> []"
  proof
    assume "tok = []"
    then have "strip (lower tok) = []" by (simp add: strip_def lower_def)
    with m show False by (simp add: mappings_Nil)
  qed
  with m show c: "clean_command tok = Some k" by (simp add: clean_command_def)
  from m show v: "k \<in> set valid_commands" by (rule mappings_valid)
  from c v show "\<not> invalid (clean_command tok)" by (simp add: invalid_Some)
next
  assume "mappings (strip (lower tok)) = None \<and> strip (lower tok) \<notin> set valid_commands"
  then show "invalid (clean_command tok)"
    by (simp add: invalid_def clean_command_def)
qed

theorem clean_command_table_witness:
  "mappings (strip (lower '' Too '')) = Some ''two'' \<and> clean_command '' Too '' = Some ''two'' \<and>
   mappings (strip (lower ''Banana'')) = None \<and> strip (lower ''Banana'') \<notin> set valid_commands \<and>
   invalid (clean_command ''Banana'')"
  using clean_command_table [of "'' Too ''" "''two''"] clean_command_table [of "''Banana''" "''two''"]
  by (simp add: too_cleaned too_mapped banana_cleaned banana_unmapped banana_not_valid)

section \<open>Facts about the matcher\<close>

text \<open>
  C3. A submission whose token is rejected returns at once: the matcher (both slots,
  both times, the time-out and all four counters) is the one it was called with, and the
  only effect between taking and releasing the lock is the line reporting the invalid
  command.
\<close>

theorem add_command_invalid:
  "invalid (clean_command tok) \<Longrightarrow>
   add_command e s tok source now =
     (s, [LockAcquire, Print_invalid tok source, LockRelease], None)"
  by (simp add: add_command_def)

theorem add_command_invalid_witness:
  "invalid (clean_command ''Banana'') \<and>
   add_command arm_ok (init 10) ''Banana'' ''VOICE'' 5 =
     (init 10, [LockAcquire, Print_invalid ''Banana'' ''VOICE'', LockRelease], None)"
  using add_command_invalid [OF banana_invalid, of arm_ok "init 10" "''VOICE''" 5] banana_invalid
  by simp

subsection \<open>How the operations unfold\<close>

lemma check_match_idle:
  "\<not> truthy (voice_command s) \<or> \<not> truthy (ocr_command s) \<or> voice_command s \<noteq> ocr_command s \<or>
   \<not> \<bar>fsub e (voice_time s) (ocr_time s)\<bar> \<le> timeout s \<Longrightarrow> check_match e s = (s, [], None)"
  by (auto simp: check_match_def Let_def)

lemma check_match_returns:
  assumes "truthy (voice_command s)" and "voice_command s = ocr_command s"
    and "\<bar>fsub e (voice_time s) (ocr_time s)\<bar> \<le> timeout s"
    and "fst (execute_command e (the (voice_command s))) = Inr b"
  shows "check_match e s =
     (reset (if b then count_executed (count_matched s) else count_matched s),
      [Print_match (the (voice_command s)) \<bar>fsub e (voice_time s) (ocr_time s)\<bar>] @
      snd (execute_command e (the (voice_command s))) @
      [if b then Print_executed (the (voice_command s))
       else Print_exec_failed (the (voice_command s))],
      None)"
  using assms by (simp add: check_match_def Let_def split_beta)

lemma check_match_raises:
  assumes "truthy (voice_command s)" and "voice_command s = ocr_command s"
    and "\<bar>fsub e (voice_time s) (ocr_time s)\<bar> \<le> timeout s"
    and "fst (execute_command e (the (voice_command s))) = Inl x"
  shows "check_match e s =
     (count_matched s,
      [Print_match (the (voice_command s)) \<bar>fsub e (voice_time s) (ocr_time s)\<bar>] @
      snd (execute_command e (the (voice_command s))),
      Some x)"
  using assms by (simp add: check_match_def Let_def split_beta)

lemma add_command_valid:
  "\<not> invalid (clean_command c) \<Longrightarrow>
   add_command e s c source now =
     (fst (check_match e (fst (store s (the (clean_command c)) source now))),
      [LockAcquire] @ snd (store s (the (clean_command c)) source now) @
      fst (snd (check_match e (fst (store s (the (clean_command c)) source now)))) @
      [LockRelease],
      snd (snd (check_match e (fst (store s (the (clean_command c)) source now)))))"
  by (simp add: add_command_def Let_def split_beta)

lemma cleanup_old_commands_eq:
  "cleanup_old_commands e s now =
     (fst (cleanup_ocr e (fst (cleanup_voice e s now)) now),
      [LockAcquire] @ snd (cleanup_voice e s now) @
      snd (cleanup_ocr e (fst (cleanup_voice e s now)) now) @ [LockRelease])"
  by (simp add: cleanup_old_commands_def split_beta)


lemma dispatch_in_execute: "\<exists>ev \<in> set (snd (execute_command e c)). is_dispatch ev"
  by (auto simp: execute_command_def split: sum.splits thrown.splits)


lemma execute_command_fails_iff:
  "(fst (execute_command e c) = Inr False) =
   (ARM_AVAILABLE e \<and> (\<exists>x. process_voice_command e c = Inl (Class_Exception x)))"
  by (auto simp: execute_command_def split: sum.splits thrown.splits)


lemma execute_ok: "execute_command arm_ok c = (Inr True, [Print_executing c, Call_arm c])"
  by (simp add: execute_command_def arm_ok_def)


lemma execute_absent: "execute_command arm_absent c = (Inr True, [Print_simulation c, Sleep 2])"
  by (simp add: execute_command_def arm_absent_def)


lemma fsub_exact_envs:
  "fsub arm_ok a b = a - b" "fsub arm_failing a b = a - b"
  "fsub arm_exiting a b = a - b" "fsub arm_absent a b = a - b"
  by (simp_all add: fsub_def arm_ok_def arm_failing_def arm_exiting_def arm_absent_def)


subsection \<open>Concrete runs\<close>

lemma pending_voice_run:
  "add_command e (init 10) ''one'' ''VOICE'' 1 =
     (pending_voice, [LockAcquire, Print_voice ''one'', LockRelease], None)"
  by (simp add: add_command_valid one_clean invalid_Some one_valid store_def check_match_idle
      truthy_def init_def pending_voice_def)





subsection \<open>Pairs of submissions\<close>





subsection \<open>The slot invariant and the sweep\<close>

lemma slot_inv_init: "slot_inv (init t)"
  by (simp add: slot_inv_def init_def)

lemma slot_inv_check_match: "slot_inv s \<Longrightarrow> slot_inv (fst (check_match e s))"
  by (auto simp: check_match_def Let_def split_beta slot_inv_def reset_def count_matched_def
      count_executed_def split: sum.splits)

lemma slot_inv_store: "slot_inv s \<Longrightarrow> now \<noteq> 0 \<Longrightarrow> slot_inv (fst (store s k source now))"
  by (auto simp: store_def slot_inv_def)

lemma slot_inv_add_command:
  assumes "slot_inv s" and "now \<noteq> 0"
  shows "slot_inv (fst (add_command e s c source now))"
proof (cases "invalid (clean_command c)")
  case True
  then show ?thesis using assms(1) by (simp add: add_command_def)
next
  case False
  then show ?thesis
    using assms by (simp add: add_command_valid slot_inv_check_match slot_inv_store)
qed

lemma slot_inv_cleanup: "slot_inv s \<Longrightarrow> slot_inv (fst (cleanup_old_commands e s now))"
  by (auto simp: slot_inv_def cleanup_old_commands_eq cleanup_voice_def cleanup_ocr_def)

lemma reachable_slot_inv: "reachable s \<Longrightarrow> slot_inv s"
  by (induction rule: reachable.induct)
     (simp_all add: slot_inv_init slot_inv_add_command slot_inv_cleanup)

lemma reachable_pending_voice: "reachable pending_voice"
proof -
  have "reachable (fst (add_command arm_ok (init 10) ''one'' ''VOICE'' 1))"
    by (intro reach_add reach_init) simp
  then show ?thesis by (simp add: pending_voice_run)
qed

text \<open>
  The sweep in the terms of the code: in a state with the slot invariant it empties
  exactly the populated slots whose computed age, a float difference, is above the
  time-out.
\<close>

lemma cleanup_old_commands_computed:
  assumes "slot_inv s"
  shows "(let (s', evs) = cleanup_old_commands e s now
          in (if voice_command s \<noteq> None \<and> fsub e now (voice_time s) > timeout s
              then voice_command s' = None \<and> voice_time s' = 0
              else voice_command s' = voice_command s \<and> voice_time s' = voice_time s) \<and>
             (if ocr_command s \<noteq> None \<and> fsub e now (ocr_time s) > timeout s
              then ocr_command s' = None \<and> ocr_time s' = 0
              else ocr_command s' = ocr_command s \<and> ocr_time s' = ocr_time s) \<and>
             stats s' = stats s \<and> timeout s' = timeout s \<and>
             (\<forall>ev \<in> set evs. \<not> is_match ev \<and> \<not> is_dispatch ev))"
  using assms
  by (auto simp: slot_inv_def cleanup_old_commands_eq cleanup_voice_def cleanup_ocr_def)

text \<open>
  C4. The matcher states are those of a running matcher, and the clock is the epoch
  clock: its readings are not \<open>0\<close>, and the float difference between the time of the
  sweep and the time of a stored reading is their exact difference. Then the sweep at
  time \<open>now\<close> empties exactly the populated slots whose age \<open>now - t\<close> is above the
  time-out and leaves the others, the counters and the time-out as they were; it prints
  no match and dispatches nothing. In particular, on a fresh matcher, one valid
  submission from one source at time \<open>t\<close>, followed by a sweep at a time more than the
  time-out after \<open>t\<close>, leaves both slots empty and the match counter at \<open>0\<close>.
\<close>

theorem cleanup_old_commands_sweeps:
  "(reachable s \<and>
    (voice_command s \<noteq> None \<longrightarrow> fsub e now (voice_time s) = now - voice_time s) \<and>
    (ocr_command s \<noteq> None \<longrightarrow> fsub e now (ocr_time s) = now - ocr_time s) \<longrightarrow>
     (let (s', evs) = cleanup_old_commands e s now
      in (if voice_command s \<noteq> None \<and> now - voice_time s > timeout s
          then voice_command s' = None \<and> voice_time s' = 0
          else voice_command s' = voice_command s \<and> voice_time s' = voice_time s) \<and>
         (if ocr_command s \<noteq> None \<and> now - ocr_time s > timeout s
          then ocr_command s' = None \<and> ocr_time s' = 0
          else ocr_command s' = ocr_command s \<and> ocr_time s' = ocr_time s) \<and>
         stats s' = stats s \<and> timeout s' = timeout s \<and>
         (\<forall>ev \<in> set evs. \<not> is_match ev \<and> \<not> is_dispatch ev))) \<and>
   (clean_command c = Some k \<and> k \<in> set valid_commands \<and> t \<noteq> 0 \<and>
    fsub e now t = now - t \<and> now - t > bound \<longrightarrow>
     (let s1 = fst (add_command e (init bound) c ''VOICE'' t);
          s2 = fst (cleanup_old_commands e s1 now)
      in voice_command s1 = Some k \<and> voice_command s2 = None \<and> ocr_command s2 = None \<and>
         matched_commands (stats s2) = 0) \<and>
     (let s1 = fst (add_command e (init bound) c ''OCR'' t);
          s2 = fst (cleanup_old_commands e s1 now)
      in ocr_command s1 = Some k \<and> ocr_command s2 = None \<and> voice_command s2 = None \<and>
         matched_commands (stats s2) = 0))"
proof (intro conjI impI)
  assume h: "reachable s \<and>
    (voice_command s \<noteq> None \<longrightarrow> fsub e now (voice_time s) = now - voice_time s) \<and>
    (ocr_command s \<noteq> None \<longrightarrow> fsub e now (ocr_time s) = now - ocr_time s)"
  then have "slot_inv s" by (simp add: reachable_slot_inv)
  from cleanup_old_commands_computed [OF this, of e now] h
  show "let (s', evs) = cleanup_old_commands e s now
      in (if voice_command s \<noteq> None \<and> now - voice_time s > timeout s
          then voice_command s' = None \<and> voice_time s' = 0
          else voice_command s' = voice_command s \<and> voice_time s' = voice_time s) \<and>
         (if ocr_command s \<noteq> None \<and> now - ocr_time s > timeout s
          then ocr_command s' = None \<and> ocr_time s' = 0
          else ocr_command s' = ocr_command s \<and> ocr_time s' = ocr_time s) \<and>
         stats s' = stats s \<and> timeout s' = timeout s \<and>
         (\<forall>ev \<in> set evs. \<not> is_match ev \<and> \<not> is_dispatch ev)"
    by (auto simp: split_beta split: if_splits)
next
  assume h: "clean_command c = Some k \<and> k \<in> set valid_commands \<and> t \<noteq> 0 \<and>
    fsub e now t = now - t \<and> now - t > bound"
  then have v: "\<not> invalid (clean_command c)" by (simp add: invalid_Some)
  have idle: "check_match e (fst (store (init bound) k src t)) =
      (fst (store (init bound) k src t), [], None)" for src
    by (rule check_match_idle) (simp add: store_def init_def truthy_def)
  from h show "let s1 = fst (add_command e (init bound) c ''VOICE'' t);
          s2 = fst (cleanup_old_commands e s1 now)
      in voice_command s1 = Some k \<and> voice_command s2 = None \<and> ocr_command s2 = None \<and>
         matched_commands (stats s2) = 0"
    by (simp add: add_command_valid [OF v] idle)
       (simp add: store_def init_def cleanup_old_commands_eq cleanup_voice_def cleanup_ocr_def)
  from h show "let s1 = fst (add_command e (init bound) c ''OCR'' t);
          s2 = fst (cleanup_old_commands e s1 now)
      in ocr_command s1 = Some k \<and> ocr_command s2 = None \<and> voice_command s2 = None \<and>
         matched_commands (stats s2) = 0"
    by (simp add: add_command_valid [OF v] idle)
       (simp add: store_def init_def cleanup_old_commands_eq cleanup_voice_def cleanup_ocr_def)
qed

theorem cleanup_old_commands_sweeps_witness:
  "reachable pending_voice \<and> voice_command pending_voice = Some ''one'' \<and>
   fsub arm_ok 12 (voice_time pending_voice) = 12 - voice_time pending_voice \<and>
   ocr_command pending_voice = None \<and>
   (let (s', evs) = cleanup_old_commands arm_ok pending_voice 12
    in voice_command s' = None \<and> voice_time s' = 0 \<and> ocr_command s' = None \<and>
       stats s' = stats pending_voice) \<and>
   clean_command ''one'' = Some ''one'' \<and> ''one'' \<in> set valid_commands \<and> (1::real) \<noteq> 0 \<and>
   fsub arm_ok 12 1 = 12 - 1 \<and> (12::real) - 1 > 10 \<and>
   (let s1 = fst (add_command arm_ok (init 10) ''one'' ''VOICE'' 1);
        s2 = fst (cleanup_old_commands arm_ok s1 12)
    in voice_command s1 = Some ''one'' \<and> voice_command s2 = None \<and> ocr_command s2 = None \<and>
       matched_commands (stats s2) = 0)"
proof -
  note r = cleanup_old_commands_sweeps
    [where s = pending_voice and now = 12 and c = "''one''" and k = "''one''" and t = 1
       and bound = 10 and e = arm_ok]
  have g: "reachable pending_voice \<and>
      (voice_command pending_voice \<noteq> None \<longrightarrow>
         fsub arm_ok 12 (voice_time pending_voice) = 12 - voice_time pending_voice) \<and>
      (ocr_command pending_voice \<noteq> None \<longrightarrow>
         fsub arm_ok 12 (ocr_time pending_voice) = 12 - ocr_time pending_voice)"
    by (simp add: reachable_pending_voice fsub_exact_envs)
  have h: "clean_command ''one'' = Some ''one'' \<and> ''one'' \<in> set valid_commands \<and>
      (1::real) \<noteq> 0 \<and> fsub arm_ok 12 1 = 12 - 1 \<and> (12::real) - 1 > 10"
    by (simp add: one_clean one_valid fsub_exact_envs)
  have a: "let (s', evs) = cleanup_old_commands arm_ok pending_voice 12
    in voice_command s' = None \<and> voice_time s' = 0 \<and> ocr_command s' = None \<and>
       stats s' = stats pending_voice"
    using r [THEN conjunct1, THEN mp, OF g]
    by (simp add: split_beta pending_voice_def)
  note b = r [THEN conjunct2, THEN mp, OF h, THEN conjunct1]
  have p: "voice_command pending_voice = Some ''one''" "ocr_command pending_voice = None"
    "fsub arm_ok 12 (voice_time pending_voice) = 12 - voice_time pending_voice"
    by (simp_all add: pending_voice_def fsub_exact_envs)
  from a b g h p show ?thesis by (intro conjI) simp_all
qed

text \<open>
  C10. Every operation of the matcher preserves the invariant that, for each source,
  the slot holds a command exactly when the stored time is not \<open>0\<close>: the match check
  and the sweep always, and a submission for every reading of the epoch clock, which is
  never \<open>0\<close>. Whatever the arm controller does, also when its exception leaves the
  submission.
\<close>

theorem slot_inv_preserved:
  "slot_inv s \<Longrightarrow>
   (now \<noteq> 0 \<longrightarrow> slot_inv (fst (add_command e s c source now))) \<and>
   slot_inv (fst (check_match e s)) \<and>
   slot_inv (fst (cleanup_old_commands e s now'))"
  by (simp add: slot_inv_add_command slot_inv_check_match slot_inv_cleanup)

theorem slot_inv_preserved_witness:
  "slot_inv pending_voice \<and> (3::real) \<noteq> 0 \<and>
   slot_inv (fst (add_command arm_exiting pending_voice ''one'' ''OCR'' 3)) \<and>
   slot_inv (fst (check_match arm_ok pending_voice)) \<and>
   slot_inv (fst (cleanup_old_commands arm_ok pending_voice 12))"
proof -
  have i: "slot_inv pending_voice" by (simp add: slot_inv_def pending_voice_def)
  note r = slot_inv_preserved [OF i, where now = 3 and c = "''one''" and source = "''OCR''"
      and now' = 12]
  have n: "(3::real) \<noteq> 0" by simp
  show ?thesis
    by (intro conjI i n r [where e = arm_exiting, THEN conjunct1, THEN mp, OF n]
        r [where e = arm_ok, THEN conjunct2, THEN conjunct1]
        r [where e = arm_ok, THEN conjunct2, THEN conjunct2])
qed


subsection \<open>Dispatch\<close>








subsection \<open>Dispatch and the lock\<close>

text \<open>
  C8, as the claim states it, fails: in a submission that produces a match the arm
  controller is called between the taking and the release of the lock.
\<close>

theorem dispatch_under_lock_counterexample:
  "\<not> dispatch_unlocked False
       (fst (snd (add_command arm_ok (fst (add_command arm_ok (init 10) ''one'' ''VOICE'' 1))
                    ''one'' ''OCR'' 3)))"
  by (simp add: pending_voice_run add_command_valid one_clean invalid_Some one_valid store_def
      pending_voice_def check_match_def execute_ok truthy_def fsub_exact_envs Let_def)

lemma dispatch_locked_append:
  "dispatch_locked True evs \<Longrightarrow> LockAcquire \<notin> set evs \<Longrightarrow> LockRelease \<notin> set evs \<Longrightarrow>
   dispatch_locked True (evs @ rest) = dispatch_locked True rest"
proof (induction evs)
  case Nil
  then show ?case by simp
next
  case (Cons ev evs)
  then show ?case by (cases ev) simp_all
qed

lemma no_lock_store:
  "LockAcquire \<notin> set (snd (store s k src now)) \<and> LockRelease \<notin> set (snd (store s k src now))"
  by (simp add: store_def)

lemma no_lock_check:
  "LockAcquire \<notin> set (fst (snd (check_match e s))) \<and>
   LockRelease \<notin> set (fst (snd (check_match e s)))"
  by (auto simp: check_match_def Let_def split_beta execute_command_def
      split: sum.splits thrown.splits)

lemma locked_store: "dispatch_locked True (snd (store s k src now))"
  by (simp add: store_def)

lemma locked_check: "dispatch_locked True (fst (snd (check_match e s)))"
  by (auto simp: check_match_def Let_def split_beta execute_command_def
      split: sum.splits thrown.splits)

lemma check_match_fired:
  assumes "truthy (voice_command s)" and "voice_command s = ocr_command s"
    and "\<bar>fsub e (voice_time s) (ocr_time s)\<bar> \<le> timeout s"
  shows "(\<exists>ev \<in> set (fst (snd (check_match e s))). is_dispatch ev) \<and>
         matched_commands (stats (fst (check_match e s))) = matched_commands (stats s) + 1 \<and>
         executed_commands (stats (fst (check_match e s))) =
           executed_commands (stats s) +
           (if fst (execute_command e (the (voice_command s))) = Inr True then 1 else 0)"
proof (cases "fst (execute_command e (the (voice_command s)))")
  case (Inl x)
  with dispatch_in_execute [of e "the (voice_command s)"] show ?thesis
    by (auto simp: check_match_raises [OF assms Inl] count_matched_def)
next
  case (Inr b)
  with dispatch_in_execute [of e "the (voice_command s)"] show ?thesis
    by (auto simp: check_match_returns [OF assms Inr] reset_def count_matched_def
        count_executed_def)
qed

text \<open>
  C8, amended. Every dispatch effect of a submission happens while the lock is held.
  When the match check after the store fires, the dispatch does happen in that
  submission, and of its outcome only the truth value reaches the counters: the match is
  counted, and \<open>executed_commands\<close> rises by one exactly when \<open>_execute_command\<close>
  returned \<open>True\<close>.
\<close>

theorem dispatch_under_lock:
  "dispatch_locked False (fst (snd (add_command e s c source now))) \<and>
   (\<not> invalid (clean_command c) \<longrightarrow>
    (let s1 = fst (store s (the (clean_command c)) source now);
         (s2, evs, raised) = add_command e s c source now
     in truthy (voice_command s1) \<and> voice_command s1 = ocr_command s1 \<and>
        \<bar>fsub e (voice_time s1) (ocr_time s1)\<bar> \<le> timeout s1 \<longrightarrow>
        (\<exists>ev \<in> set evs. is_dispatch ev) \<and>
        matched_commands (stats s2) = matched_commands (stats s1) + 1 \<and>
        executed_commands (stats s2) =
          executed_commands (stats s1) +
          (if fst (execute_command e (the (voice_command s1))) = Inr True then 1 else 0)))"
proof (intro conjI impI)
  show "dispatch_locked False (fst (snd (add_command e s c source now)))"
  proof (cases "invalid (clean_command c)")
    case True
    then show ?thesis by (simp add: add_command_def)
  next
    case False
    then show ?thesis
      by (simp add: add_command_valid dispatch_locked_append locked_store locked_check
          no_lock_store no_lock_check)
  qed
next
  assume v: "\<not> invalid (clean_command c)"
  define s1 where "s1 = fst (store s (the (clean_command c)) source now)"
  have "(\<exists>ev \<in> set (fst (snd (add_command e s c source now))). is_dispatch ev) \<and>
        matched_commands (stats (fst (add_command e s c source now))) =
          matched_commands (stats s1) + 1 \<and>
        executed_commands (stats (fst (add_command e s c source now))) =
          executed_commands (stats s1) +
          (if fst (execute_command e (the (voice_command s1))) = Inr True then 1 else 0)"
    if f: "truthy (voice_command s1)" "voice_command s1 = ocr_command s1"
      "\<bar>fsub e (voice_time s1) (ocr_time s1)\<bar> \<le> timeout s1"
    using check_match_fired [OF f]
    by (auto simp: add_command_valid [OF v] s1_def [symmetric])
  then show "let s1 = fst (store s (the (clean_command c)) source now);
         (s2, evs, raised) = add_command e s c source now
     in truthy (voice_command s1) \<and> voice_command s1 = ocr_command s1 \<and>
        \<bar>fsub e (voice_time s1) (ocr_time s1)\<bar> \<le> timeout s1 \<longrightarrow>
        (\<exists>ev \<in> set evs. is_dispatch ev) \<and>
        matched_commands (stats s2) = matched_commands (stats s1) + 1 \<and>
        executed_commands (stats s2) =
          executed_commands (stats s1) +
          (if fst (execute_command e (the (voice_command s1))) = Inr True then 1 else 0)"
    unfolding s1_def Let_def split_beta by blast
qed

theorem dispatch_under_lock_witness:
  "\<not> invalid (clean_command ''one'') \<and>
   (let s1 = fst (store pending_voice (the (clean_command ''one'')) ''OCR'' 3)
    in truthy (voice_command s1) \<and> voice_command s1 = ocr_command s1 \<and>
       \<bar>fsub arm_ok (voice_time s1) (ocr_time s1)\<bar> \<le> timeout s1) \<and>
   dispatch_locked False (fst (snd (add_command arm_ok pending_voice ''one'' ''OCR'' 3))) \<and>
   (\<exists>ev \<in> set (fst (snd (add_command arm_ok pending_voice ''one'' ''OCR'' 3))). is_dispatch ev) \<and>
   executed_commands (stats (fst (add_command arm_ok pending_voice ''one'' ''OCR'' 3))) = 1"
proof -
  note r = dispatch_under_lock
    [where e = arm_ok and s = pending_voice and c = "''one''" and source = "''OCR''" and now = 3]
  have v: "\<not> invalid (clean_command ''one'')"
    by (simp add: one_clean invalid_Some one_valid)
  have f: "let s1 = fst (store pending_voice (the (clean_command ''one'')) ''OCR'' 3)
    in truthy (voice_command s1) \<and> voice_command s1 = ocr_command s1 \<and>
       \<bar>fsub arm_ok (voice_time s1) (ocr_time s1)\<bar> \<le> timeout s1"
    by (simp add: one_clean store_def pending_voice_def truthy_def fsub_exact_envs)
  from r [THEN conjunct2, THEN mp, OF v] f
  have "(\<exists>ev \<in> set (fst (snd (add_command arm_ok pending_voice ''one'' ''OCR'' 3))).
           is_dispatch ev) \<and>
      executed_commands (stats (fst (add_command arm_ok pending_voice ''one'' ''OCR'' 3))) = 1"
    by (simp add: Let_def split_beta one_clean execute_ok) (simp add: store_def pending_voice_def)
  with v f r [THEN conjunct1] show ?thesis by blast
qed


section \<open>Facts about the dashboard's matcher\<close>

lemma gui_no_match_silent:
  "\<not> (truthy (current_voice_command d) \<and> truthy (current_ocr_command d) \<and>
      current_voice_time d \<noteq> None \<and> current_ocr_time d \<noteq> None \<and>
      current_voice_command d = current_ocr_command d \<and>
      \<bar>the (current_voice_time d) - the (current_ocr_time d)\<bar> \<le> 10) \<Longrightarrow>
   check_command_match strftime d match_time = (d, [])"
  by (auto simp: check_command_match_def Let_def)

text \<open>Two messages with the same command, two seconds apart, on a fresh dashboard.\<close>

lemma gui_two_messages:
  "snd (process_gui_message clock_noon
          (fst (process_gui_message clock_noon dashboard_init ''voice_command'' ''two'' 1 1))
          ''ocr_command'' ''two'' 3 3) =
   [''[GUI] OCR command: two'', ''[GUI] MATCH FOUND: None'']"
  by (simp add: process_gui_message_def check_command_match_def dashboard_init_def truthy_def
      reset_gui_def py_str_def clock_noon_def Let_def)

text \<open>
  C9. The dashboard decides matches by its own test (both slots and both times present,
  equal commands, times at most ten seconds apart). Whenever that test fires, the entry
  appended to the match history names the matched command, the four slots are reset, and
  the one line printed afterwards formats the voice slot as it is after the reset: it
  reads \<open>MATCH FOUND: None\<close> whatever the matched command was.
\<close>

theorem gui_match_prints_cleared_slot:
  assumes "current_voice_command d = Some cmd" and "cmd \<noteq> []"
    and "current_ocr_command d = Some cmd"
    and "current_voice_time d = Some tv" and "current_ocr_time d = Some to"
    and "\<bar>tv - to\<bar> \<le> 10"
  shows "(let (d', out) = check_command_match strftime d match_time
          in out = [''[GUI] MATCH FOUND: None''] \<and>
             out = [''[GUI] MATCH FOUND: '' @ py_str (current_voice_command d')] \<and>
             current_voice_command d' = None \<and> current_ocr_command d' = None \<and>
             current_voice_time d' = None \<and> current_ocr_time d' = None \<and>
             matched_commands_gui d' =
               matched_commands_gui d @ [strftime match_time @ '' - '' @ cmd @ '' (Match!)''])"
  using assms
  by (simp add: check_command_match_def truthy_def Let_def reset_gui_def py_str_def)

theorem gui_match_prints_cleared_slot_witness:
  "current_voice_command dashboard_pair = Some ''two'' \<and> ''two'' \<noteq> [] \<and>
   current_ocr_command dashboard_pair = Some ''two'' \<and>
   current_voice_time dashboard_pair = Some 1 \<and> current_ocr_time dashboard_pair = Some 3 \<and>
   \<bar>1 - 3\<bar> \<le> (10::real) \<and>
   snd (check_command_match clock_noon dashboard_pair 4) = [''[GUI] MATCH FOUND: None''] \<and>
   matched_commands_gui (fst (check_command_match clock_noon dashboard_pair 4)) =
     [''12:00:00 - two (Match!)'']"
proof -
  have h: "current_voice_command dashboard_pair = Some ''two''" "''two'' \<noteq> []"
    "current_ocr_command dashboard_pair = Some ''two''"
    "current_voice_time dashboard_pair = Some 1" "current_ocr_time dashboard_pair = Some 3"
    "\<bar>1 - 3\<bar> \<le> (10::real)"
    by (simp_all add: dashboard_pair_def)
  from gui_match_prints_cleared_slot [OF h, of clock_noon 4] h
  show ?thesis by (simp add: split_beta clock_noon_def dashboard_pair_def)
qed

section \<open>Facts about process supervision\<close>

lemma check_process_other:
  "fst entry \<noteq> name \<Longrightarrow> processes (fst (check_process os sys entry)) name = processes sys name"
  by (auto simp: check_process_def split_beta split: option.splits sum.splits)

lemma check_process_rest:
  "command_matcher (fst (check_process os sys entry)) = command_matcher sys \<and>
   running (fst (check_process os sys entry)) = running sys"
  by (auto simp: check_process_def split_beta split: option.splits sum.splits)

lemma check_processes_other:
  "name \<notin> fst ` set entries \<Longrightarrow>
   processes (fst (check_processes os sys entries)) name = processes sys name"
  by (induction entries arbitrary: sys) (auto simp: split_beta check_process_other)

lemma check_processes_rest:
  "command_matcher (fst (check_processes os sys entries)) = command_matcher sys \<and>
   running (fst (check_processes os sys entries)) = running sys"
  by (induction entries arbitrary: sys) (auto simp: split_beta check_process_rest)

lemma check_process_cong:
  "processes sys1 name = processes sys2 name \<Longrightarrow>
   snd (check_process os sys1 (name, script)) = snd (check_process os sys2 (name, script)) \<and>
   processes (fst (check_process os sys1 (name, script))) name =
   processes (fst (check_process os sys2 (name, script))) name"
  by (auto simp: check_process_def split: option.splits sum.splits)

lemma check_processes_entry:
  "distinct (map fst entries) \<Longrightarrow> (name, script) \<in> set entries \<Longrightarrow>
   processes (fst (check_processes os sys entries)) name =
     processes (fst (check_process os sys (name, script))) name \<and>
   set (snd (check_process os sys (name, script))) \<subseteq> set (snd (check_processes os sys entries))"
proof (induction entries arbitrary: sys)
  case Nil
  then show ?case by simp
next
  case (Cons entry rest)
  show ?case
  proof (cases "entry = (name, script)")
    case True
    with Cons.prems have "name \<notin> fst ` set rest" by auto
    then show ?thesis using True by (simp add: split_beta check_processes_other)
  next
    case False
    with Cons.prems have in_rest: "(name, script) \<in> set rest" by auto
    from Cons.prems have d: "distinct (map fst rest)" and nin: "fst entry \<notin> fst ` set rest"
      by auto
    from in_rest have "name \<in> fst ` set rest" by force
    with nin have ne: "fst entry \<noteq> name" by auto
    define sys1 where "sys1 = fst (check_process os sys entry)"
    have same: "processes sys1 name = processes sys name"
      unfolding sys1_def using ne by (rule check_process_other)
    note ih = Cons.IH [OF d in_rest, of sys1]
    note cg = check_process_cong [OF same, of os script]
    from ih cg show ?thesis by (auto simp: split_beta sys1_def [symmetric])
  qed
qed

lemma scripts_distinct: "distinct (map fst scripts)"
  by (simp add: scripts_def)

text \<open>
  C6, as the claim states it, fails. A dead process whose restart raises keeps its stale
  handle through the turn of the loop; and a turn that does restart a process changes
  the table of handles only: the system holds no restart counter, and the matcher with
  its four counters is as before.
\<close>

theorem monitor_turn_counterexample:
  "running sys_voice_dead \<and>
   processes sys_voice_dead ''VOICE'' = Some \<lparr>pid = 100, args = [''python3'', ''voice4.py'']\<rparr> \<and>
   poll os_exhausted \<lparr>pid = 100, args = [''python3'', ''voice4.py'']\<rparr> = Some 1 \<and>
   processes (fst (monitor_turn os_exhausted sys_voice_dead)) ''VOICE'' =
     Some \<lparr>pid = 100, args = [''python3'', ''voice4.py'']\<rparr> \<and>
   command_matcher (fst (monitor_turn os_spawning sys_voice_dead)) = command_matcher sys_voice_dead"
  by (simp add: monitor_turn_def scripts_def check_process_def sys_voice_dead_def os_exhausted_def
      os_spawning_def VOICE_SCRIPT_def OCR_SCRIPT_def GUI_SCRIPT_def)

text \<open>
  C6, amended. While the system is running, one turn of the loop handles every managed
  process that has exited: \<open>Popen\<close> is called with the interpreter and the script that
  \<open>scripts\<close> gives for the process's name; if it returns, the new handle replaces the
  stale one under the same name and the restart is printed; if it raises, the failure is
  printed and the stale handle stays. The matcher and the running flag are unchanged;
  no restart is counted anywhere.
\<close>

theorem monitor_turn_restarts:
  assumes "running sys" and "(name, script) \<in> set scripts"
    and "processes sys name = Some p" and "poll os p \<noteq> None"
  shows "(let (sys', evs) = monitor_turn os sys
          in (case Popen os [executable os, script] of
                Inr new_process \<Rightarrow>
                  processes sys' name = Some new_process \<and>
                  Print_restarted name (pid new_process) \<in> set evs
              | Inl x \<Rightarrow>
                  processes sys' name = Some p \<and> Print_restart_failed name x \<in> set evs) \<and>
             command_matcher sys' = command_matcher sys \<and> running sys' = running sys)"
proof -
  note en = check_processes_entry [OF scripts_distinct assms(2), of os sys]
  have one: "check_process os sys (name, script) =
      (case Popen os [executable os, script] of
         Inr new_process \<Rightarrow>
           (sys\<lparr>processes := (processes sys)(name \<mapsto> new_process)\<rparr>,
            [Print_died name, Print_restarted name (pid new_process)])
       | Inl x \<Rightarrow> (sys, [Print_died name, Print_restart_failed name x]))"
    using assms(3,4) by (auto simp: check_process_def)
  show ?thesis
    using en assms(1,3) check_processes_rest [of os sys scripts]
    by (auto simp: monitor_turn_def one split_beta split: sum.splits)
qed

lemma voice_entry: "(''VOICE'', ''voice4.py'') \<in> set scripts"
  by (simp add: scripts_def VOICE_SCRIPT_def)

theorem monitor_turn_restarts_witness:
  "running sys_voice_dead \<and> (''VOICE'', ''voice4.py'') \<in> set scripts \<and>
   processes sys_voice_dead ''VOICE'' = Some \<lparr>pid = 100, args = [''python3'', ''voice4.py'']\<rparr> \<and>
   poll os_spawning \<lparr>pid = 100, args = [''python3'', ''voice4.py'']\<rparr> \<noteq> None \<and>
   processes (fst (monitor_turn os_spawning sys_voice_dead)) ''VOICE'' =
     Some \<lparr>pid = 200, args = [''python3'', ''voice4.py'']\<rparr> \<and>
   processes (fst (monitor_turn os_exhausted sys_voice_dead)) ''VOICE'' =
     Some \<lparr>pid = 100, args = [''python3'', ''voice4.py'']\<rparr>"
proof -
  have r: "running sys_voice_dead" by (simp add: sys_voice_dead_def)
  have p: "processes sys_voice_dead ''VOICE'' =
      Some \<lparr>pid = 100, args = [''python3'', ''voice4.py'']\<rparr>"
    by (simp add: sys_voice_dead_def)
  have d1: "poll os_spawning \<lparr>pid = 100, args = [''python3'', ''voice4.py'']\<rparr> \<noteq> None"
    by (simp add: os_spawning_def)
  have d2: "poll os_exhausted \<lparr>pid = 100, args = [''python3'', ''voice4.py'']\<rparr> \<noteq> None"
    by (simp add: os_exhausted_def)
  from monitor_turn_restarts [OF r voice_entry p d1] monitor_turn_restarts [OF r voice_entry p d2]
  have "processes (fst (monitor_turn os_spawning sys_voice_dead)) ''VOICE'' =
     Some \<lparr>pid = 200, args = [''python3'', ''voice4.py'']\<rparr> \<and>
   processes (fst (monitor_turn os_exhausted sys_voice_dead)) ''VOICE'' =
     Some \<lparr>pid = 100, args = [''python3'', ''voice4.py'']\<rparr>"
    by (simp add: split_beta os_spawning_def os_exhausted_def)
  with r voice_entry p d1 show ?thesis by blast
qed


end
